theory Spec2Isabelle
  imports Main "HOL-Library.Word" "HOL-Library.Sublist"
begin

unbundle bit_operations_syntax

section \<open>ArchiveChain: sealing, unsealing and the failover transfer layer\<close>

text \<open>
  The development embeds the parts of the repository that seal an archive
  (\<^verbatim>\<open>sealBuffer\<close> in the backend, \<^verbatim>\<open>encryptData\<close> in
  \<^verbatim>\<open>frontend/src/utils/crypto.ts\<close>), open it again
  (\<^verbatim>\<open>decryptBlob\<close>, \<^verbatim>\<open>decryptSealedBlob\<close>), move keys in and out of
  base64, upload to the Walrus publishers, serve \<^verbatim>\<open>POST /api/archive\<close> and fetch an
  archive in the viewer (\<^verbatim>\<open>fetchHtml\<close>).

  The cryptographic primitives, the network, the headless browser and the zip library
  are not code of the repository. They are parameters of the model: records of
  functions, one field per call the source makes. Randomness is an explicit argument,
  exceptions are the left summand of a sum type, and every network request is logged in
  a trace that the function returns beside its result.
\<close>

subsection \<open>Bytes, strings, exceptions, randomness\<close>

type_synonym bytes = "8 word list"

text \<open>A JavaScript string is a sequence of UTF-16 code units.\<close>

type_synonym jsstring = "16 word list"

definition js :: "string \<Rightarrow> jsstring" where
  "js s = map of_char s"

text \<open>The padlock U+1F512 is the surrogate pair D83D DD12.\<close>

definition lock :: jsstring where
  "lock = [0xD83D, 0xDD12]"

text \<open>\<^verbatim>\<open>s.includes(t)\<close>: \<open>t\<close> occurs in \<open>s\<close> as a contiguous run of code units.\<close>

definition js_includes :: "jsstring \<Rightarrow> jsstring \<Rightarrow> bool" where
  "js_includes s t = sublist t s"

text \<open>
  The exceptions of the runtime that the modelled code can meet. \<open>Thrown m\<close> is a plain
  \<^verbatim>\<open>Error\<close> with message \<open>m\<close>; the others are named by their \<^verbatim>\<open>name\<close> property.
\<close>

datatype js_error =
    RangeError
  | TypeError
  | OperationError
  | DataError
  | InvalidAccessError
  | InvalidCharacterError
  | Thrown jsstring

text \<open>
  The system random source, as the sequence of bytes it is going to deliver.
  \<^verbatim>\<open>randomBytes(n)\<close> and \<^verbatim>\<open>getRandomValues(new Uint8Array(n))\<close> take the next
  \<open>n\<close> bytes.
\<close>

type_synonym entropy = "nat \<Rightarrow> 8 word"

definition randomBytes :: "nat \<Rightarrow> entropy \<Rightarrow> bytes \<times> entropy" where
  "randomBytes n rng = (map rng [0..<n], (\<lambda>i. rng (i + n)))"

text \<open>\<^verbatim>\<open>buffer.slice(a, b)\<close> for \<open>0 \<le> a\<close>: both ends are clamped to the length.\<close>

definition slice :: "nat \<Rightarrow> nat \<Rightarrow> 'a list \<Rightarrow> 'a list" where
  "slice a b xs = take (b - a) (drop a xs)"

text \<open>
  \<^verbatim>\<open>Buffer.alloc(2).writeUInt16BE(n)\<close>: a \<^verbatim>\<open>RangeError\<close> when \<open>n\<close> does not fit
  16 bits, else the high byte first.
\<close>

definition writeUInt16BE :: "nat \<Rightarrow> js_error + bytes" where
  "writeUInt16BE n =
     (if 65535 < n then Inl RangeError
      else Inr [of_nat (n div 256), of_nat (n mod 256)])"

text \<open>
  \<^verbatim>\<open>new DataView(buffer).getUint16(off, false)\<close>: a \<^verbatim>\<open>RangeError\<close> when the two
  bytes are not inside the buffer, else the big-endian value.
\<close>

definition getUint16BE :: "bytes \<Rightarrow> nat \<Rightarrow> js_error + nat" where
  "getUint16BE buffer off =
     (if length buffer < off + 2 then Inl RangeError
      else Inr (256 * unat (buffer ! off) + unat (buffer ! (off + 1))))"

text \<open>
  \<^verbatim>\<open>new Uint8Array(new Uint16Array([n]).buffer)\<close>: \<open>n\<close> is reduced modulo \<open>2^16\<close> and
  laid out in the byte order of the host, which the flag gives.
\<close>

definition uint16_host_bytes :: "bool \<Rightarrow> nat \<Rightarrow> bytes" where
  "uint16_host_bytes little_endian n =
     (let lo = of_nat (n mod 256); hi = of_nat ((n mod 65536) div 256)
      in if little_endian then [lo, hi] else [hi, lo])"

subsection \<open>The platform\<close>

text \<open>
  Node's \<^verbatim>\<open>crypto\<close> module as \<^verbatim>\<open>sealBuffer\<close> and the archive route use it:
  \<^item> \<open>gcm_cipher key iv data\<close> is \<^verbatim>\<open>createCipheriv('aes-256-gcm', key, iv)\<close>
    followed by \<^verbatim>\<open>update\<close>, \<^verbatim>\<open>final\<close> and \<^verbatim>\<open>getAuthTag\<close>: ciphertext and tag;
  \<^item> \<open>publicEncrypt pem msg rng\<close> is \<^verbatim>\<open>publicEncrypt\<close> with OAEP padding and SHA-256
    under the key read from the text \<open>pem\<close>; OAEP draws randomness of its own;
  \<^item> \<open>sha256_hex\<close> is \<^verbatim>\<open>createHash("sha256").update(b).digest("hex")\<close>.
\<close>

record node_crypto =
  gcm_cipher :: "bytes \<Rightarrow> bytes \<Rightarrow> bytes \<Rightarrow> bytes \<times> bytes"
  publicEncrypt :: "jsstring \<Rightarrow> bytes \<Rightarrow> entropy \<Rightarrow> js_error + bytes"
  sha256_hex :: "bytes \<Rightarrow> jsstring"

text \<open>
  The browser: \<^verbatim>\<open>window.crypto.subtle\<close>, \<^verbatim>\<open>btoa\<close> and \<^verbatim>\<open>atob\<close>, one field per call
  with the arguments the source fixes (format, algorithm, extractable, usages).
  \<open>'pub\<close>, \<open>'priv\<close> and \<open>'aes\<close> are the \<^verbatim>\<open>CryptoKey\<close> objects for RSA-OAEP public
  keys, RSA-OAEP private keys and AES-GCM keys. \<open>encrypt_gcm\<close> returns the ciphertext
  with the tag appended and \<open>decrypt_gcm\<close> expects it so. \<open>little_endian\<close> is the byte
  order of the host.
\<close>

record ('pub, 'priv, 'aes) web_crypto =
  generateKey_rsa :: "entropy \<Rightarrow> 'pub \<times> 'priv"
  exportKey_spki :: "'pub \<Rightarrow> js_error + bytes"
  importKey_spki :: "bytes \<Rightarrow> js_error + 'pub"
  exportKey_pkcs8 :: "'priv \<Rightarrow> js_error + bytes"
  importKey_pkcs8 :: "bytes \<Rightarrow> js_error + 'priv"
  generateKey_aes :: "entropy \<Rightarrow> 'aes \<times> entropy"
  exportKey_raw :: "'aes \<Rightarrow> js_error + bytes"
  importKey_raw :: "bytes \<Rightarrow> js_error + 'aes"
  encrypt_rsa :: "'pub \<Rightarrow> bytes \<Rightarrow> entropy \<Rightarrow> js_error + bytes"
  decrypt_rsa :: "'priv \<Rightarrow> bytes \<Rightarrow> js_error + bytes"
  encrypt_gcm :: "'aes \<Rightarrow> bytes \<Rightarrow> bytes \<Rightarrow> js_error + bytes"
  decrypt_gcm :: "'aes \<Rightarrow> bytes \<Rightarrow> bytes \<Rightarrow> js_error + bytes"
  btoa :: "jsstring \<Rightarrow> js_error + jsstring"
  atob :: "jsstring \<Rightarrow> js_error + jsstring"
  little_endian :: bool

subsection \<open>Sealing on the server: \<^verbatim>\<open>sealBuffer\<close>\<close>

definition pem_begin :: jsstring where
  "pem_begin = js ''-----BEGIN PUBLIC KEY-----''"

definition pem_end :: jsstring where
  "pem_end = js ''-----END PUBLIC KEY-----''"

text \<open>The template literal that frames the supplied key text; 10 is the line feed.\<close>

definition formattedKey :: "jsstring \<Rightarrow> jsstring" where
  "formattedKey publicKeyPem = pem_begin @ [10] @ publicKeyPem @ [10] @ pem_end"

definition sealBuffer :: "node_crypto \<Rightarrow> entropy \<Rightarrow> bytes \<Rightarrow> jsstring \<Rightarrow> js_error + bytes" where
  "sealBuffer N rng buffer publicKeyPem =
     (let (aesKey, rng1) = randomBytes 32 rng;
          (iv, rng2) = randomBytes 16 rng1;
          (encryptedContent, authTag) = gcm_cipher N aesKey iv buffer
      in case publicEncrypt N (formattedKey publicKeyPem) aesKey rng2 of
           Inl e \<Rightarrow> Inl e
         | Inr encryptedAesKey \<Rightarrow>
             (case writeUInt16BE (length encryptedAesKey) of
                Inl e \<Rightarrow> Inl e
              | Inr keyLengthBuf \<Rightarrow>
                  Inr (iv @ authTag @ keyLengthBuf @ encryptedAesKey @ encryptedContent)))"

subsection \<open>Sealing in the browser: \<^verbatim>\<open>encryptData\<close>\<close>

definition encryptData ::
  "('pub, 'priv, 'aes) web_crypto \<Rightarrow> entropy \<Rightarrow> bytes \<Rightarrow> 'pub \<Rightarrow> js_error + bytes" where
  "encryptData W rng data publicKey =
     (let (aesKey, rng1) = generateKey_aes W rng;
          (iv, rng2) = randomBytes 12 rng1
      in case encrypt_gcm W aesKey iv data of
           Inl e \<Rightarrow> Inl e
         | Inr encryptedContent \<Rightarrow>
             (case exportKey_raw W aesKey of
                Inl e \<Rightarrow> Inl e
              | Inr rawAesKey \<Rightarrow>
                  (case encrypt_rsa W publicKey rawAesKey rng2 of
                     Inl e \<Rightarrow> Inl e
                   | Inr encryptedAesKey \<Rightarrow>
                       (let keyLength =
                              uint16_host_bytes (little_endian W) (length encryptedAesKey)
                        in Inr (iv @ keyLength @ encryptedAesKey @ encryptedContent)))))"

subsection \<open>Unsealing in the viewer: \<^verbatim>\<open>decryptBlob\<close> and \<^verbatim>\<open>decryptSealedBlob\<close>\<close>

text \<open>
  The slices are taken before the \<^verbatim>\<open>DataView\<close> read and never throw; the read of the
  length at offset 32 throws on a buffer shorter than 34 bytes. Past that point the
  tag slice has 16 bytes, so \<^verbatim>\<open>contentWithTag\<close> is the content followed by the tag.
\<close>

definition decryptBlob ::
  "('pub, 'priv, 'aes) web_crypto \<Rightarrow> bytes \<Rightarrow> 'priv \<Rightarrow> js_error + bytes" where
  "decryptBlob W buffer privateKey =
     (let iv = slice 0 16 buffer;
          authTag = slice 16 32 buffer
      in case getUint16BE buffer 32 of
           Inl e \<Rightarrow> Inl e
         | Inr keyLength \<Rightarrow>
             (let encryptedKey = slice 34 (34 + keyLength) buffer;
                  content = drop (34 + keyLength) buffer
              in case decrypt_rsa W privateKey encryptedKey of
                   Inl e \<Rightarrow> Inl e
                 | Inr aesKeyRaw \<Rightarrow>
                     (case importKey_raw W aesKeyRaw of
                        Inl e \<Rightarrow> Inl e
                      | Inr aesKey \<Rightarrow>
                          (let contentWithTag = content @ authTag
                           in decrypt_gcm W aesKey iv contentWithTag))))"

text \<open>The viewer component carries its own copy of the same function.\<close>

definition decryptSealedBlob ::
  "('pub, 'priv, 'aes) web_crypto \<Rightarrow> bytes \<Rightarrow> 'priv \<Rightarrow> js_error + bytes" where
  "decryptSealedBlob W buffer privateKey =
     (let iv = slice 0 16 buffer;
          authTag = slice 16 32 buffer
      in case getUint16BE buffer 32 of
           Inl e \<Rightarrow> Inl e
         | Inr keyLength \<Rightarrow>
             (let encryptedKey = slice 34 (34 + keyLength) buffer;
                  content = drop (34 + keyLength) buffer
              in case decrypt_rsa W privateKey encryptedKey of
                   Inl e \<Rightarrow> Inl e
                 | Inr aesKeyRaw \<Rightarrow>
                     (case importKey_raw W aesKeyRaw of
                        Inl e \<Rightarrow> Inl e
                      | Inr aesKey \<Rightarrow>
                          (let contentWithTag = content @ authTag
                           in decrypt_gcm W aesKey iv contentWithTag))))"

subsection \<open>Keys in and out of base64\<close>

text \<open>
  \<^verbatim>\<open>String.fromCharCode(...bytes)\<close> makes one code unit of each byte; the import loop
  stores \<^verbatim>\<open>charCodeAt(i)\<close> into a \<^verbatim>\<open>Uint8Array\<close>, which keeps the low eight bits.
\<close>

definition fromCharCode :: "bytes \<Rightarrow> jsstring" where
  "fromCharCode bs = map ucast bs"

definition charCodes :: "jsstring \<Rightarrow> bytes" where
  "charCodes s = map ucast s"

definition exportKey :: "('pub, 'priv, 'aes) web_crypto \<Rightarrow> 'pub \<Rightarrow> js_error + jsstring" where
  "exportKey W key =
     (case exportKey_spki W key of
        Inl e \<Rightarrow> Inl e
      | Inr exported \<Rightarrow> btoa W (fromCharCode exported))"

definition importPublicKey :: "('pub, 'priv, 'aes) web_crypto \<Rightarrow> jsstring \<Rightarrow> js_error + 'pub" where
  "importPublicKey W pem =
     (case atob W pem of
        Inl e \<Rightarrow> Inl e
      | Inr binaryDerString \<Rightarrow> importKey_spki W (charCodes binaryDerString))"

definition exportPrivateKey :: "('pub, 'priv, 'aes) web_crypto \<Rightarrow> 'priv \<Rightarrow> js_error + jsstring" where
  "exportPrivateKey W key =
     (case exportKey_pkcs8 W key of
        Inl e \<Rightarrow> Inl e
      | Inr exported \<Rightarrow> btoa W (fromCharCode exported))"

definition importPrivateKey :: "('pub, 'priv, 'aes) web_crypto \<Rightarrow> jsstring \<Rightarrow> js_error + 'priv" where
  "importPrivateKey W pem =
     (case atob W pem of
        Inl e \<Rightarrow> Inl e
      | Inr binaryDerString \<Rightarrow> importKey_pkcs8 W (charCodes binaryDerString))"

text \<open>
  \<^verbatim>\<open>generateKeyPair\<close> asks for a 2048-bit RSA-OAEP pair with SHA-256, extractable, for
  encryption and decryption; the parameters are fixed inside \<open>generateKey_rsa\<close>.
\<close>

definition generateKeyPair :: "('pub, 'priv, 'aes) web_crypto \<Rightarrow> entropy \<Rightarrow> 'pub \<times> 'priv" where
  "generateKeyPair W rng = generateKey_rsa W rng"

subsection \<open>Upload with failover: \<^verbatim>\<open>uploadToWalrusDirectly\<close>\<close>

text \<open>
  What one \<^verbatim>\<open>PUT\<close> can come to. \<open>PutRejected\<close>: \<^verbatim>\<open>fetch\<close> or \<^verbatim>\<open>response.json()\<close>
  rejects, or reading the blob id out of a malformed \<^verbatim>\<open>newlyCreated\<close> throws.
  \<open>PutStatus\<close>: \<^verbatim>\<open>response.ok\<close> is false. \<open>PutNewlyCreated b\<close>: the body has a truthy
  \<^verbatim>\<open>newlyCreated\<close> and \<open>b\<close> is \<^verbatim>\<open>newlyCreated.blobObject.blobId\<close>.
  \<open>PutAlreadyCertified b\<close>: it has none, but a truthy \<^verbatim>\<open>alreadyCertified\<close> with blob id
  \<open>b\<close>. \<open>PutOtherBody\<close>: neither.
\<close>

datatype put_reply =
    PutRejected js_error
  | PutStatus nat jsstring
  | PutNewlyCreated jsstring
  | PutAlreadyCertified jsstring
  | PutOtherBody

text \<open>
  The value held in \<^verbatim>\<open>lastError\<close>: what was caught, the \<^verbatim>\<open>Status s: text\<close> error or the
  \<^verbatim>\<open>Invalid response structure from Walrus\<close> error.
\<close>

datatype upload_failure =
    Caught js_error
  | StatusNotOk nat jsstring
  | InvalidResponseStructure

text \<open>
  \<^verbatim>\<open>All Walrus publishers failed. Last error: ...\<close> with the message of \<^verbatim>\<open>lastError\<close>,
  which is \<^verbatim>\<open>null\<close> until a publisher has failed.
\<close>

datatype upload_error = AllPublishersFailed "upload_failure option"

record upload_result =
  blobId :: jsstring
  status :: jsstring


definition put_url :: "jsstring \<Rightarrow> jsstring" where
  "put_url baseUrl = baseUrl @ js ''/v1/blobs?epochs=5''"

text \<open>The body of the \<^verbatim>\<open>try\<close> block for one publisher.\<close>

definition put_attempt ::
  "(jsstring \<Rightarrow> bytes \<Rightarrow> put_reply) \<Rightarrow> bytes \<Rightarrow> jsstring \<Rightarrow> upload_failure + upload_result" where
  "put_attempt net fileBuffer baseUrl =
     (case net (put_url baseUrl) fileBuffer of
        PutRejected e \<Rightarrow> Inl (Caught e)
      | PutStatus s t \<Rightarrow> Inl (StatusNotOk s t)
      | PutNewlyCreated b \<Rightarrow> Inr \<lparr>blobId = b, status = js ''active''\<rparr>
      | PutAlreadyCertified b \<Rightarrow> Inr \<lparr>blobId = b, status = js ''active''\<rparr>
      | PutOtherBody \<Rightarrow> Inl InvalidResponseStructure)"

text \<open>
  The \<^verbatim>\<open>for\<close> loop over the publishers still to try, with \<^verbatim>\<open>lastError\<close> as it stands.
  The second component lists the URLs requested, in the order of the requests.
\<close>

fun upload_loop ::
  "(jsstring \<Rightarrow> bytes \<Rightarrow> put_reply) \<Rightarrow> bytes \<Rightarrow> jsstring list \<Rightarrow> upload_failure option
   \<Rightarrow> (upload_error + upload_result) \<times> jsstring list" where
  "upload_loop net fileBuffer [] lastError = (Inl (AllPublishersFailed lastError), [])"
| "upload_loop net fileBuffer (baseUrl # rest) lastError =
     (case put_attempt net fileBuffer baseUrl of
        Inr r \<Rightarrow> (Inr r, [put_url baseUrl])
      | Inl err \<Rightarrow>
          (case upload_loop net fileBuffer rest (Some err) of
             (r, reqs) \<Rightarrow> (r, put_url baseUrl # reqs)))"


subsection \<open>The archive route: \<^verbatim>\<open>POST /api/archive\<close>\<close>













subsection \<open>The viewer: \<^verbatim>\<open>fetchHtml\<close>\<close>

record archive_object =
  archive_id :: jsstring
  url :: jsstring
  title :: jsstring
  realVersion :: nat
  capturedAtMs :: jsstring
  walrusBlobId :: jsstring
  tuskyFileId :: jsstring
  contentHash :: jsstring
  objectId :: jsstring

text \<open>
  What one \<^verbatim>\<open>GET\<close> can come to: \<^verbatim>\<open>fetch\<close> or \<^verbatim>\<open>response.blob()\<close> rejects, the status
  is not ok, or a body arrives.
\<close>

datatype get_reply =
    GetRejected js_error
  | GetStatus nat
  | GetOk bytes

text \<open>
  The viewer's surroundings: the browser crypto, the aggregators, JSZip
  (\<^verbatim>\<open>loadAsync\<close> followed by \<^verbatim>\<open>file("index.html")?.async("string")\<close>: it throws, finds
  no such entry, or gives its text) and \<^verbatim>\<open>blob.text()\<close>.
\<close>

record ('pub, 'priv, 'aes) viewer_env =
  web :: "('pub, 'priv, 'aes) web_crypto"
  aggregators :: "jsstring \<Rightarrow> get_reply"
  zip_index_html :: "bytes \<Rightarrow> js_error + jsstring option"
  blob_text :: "bytes \<Rightarrow> jsstring"

definition AGGREGATORS :: "jsstring list" where
  "AGGREGATORS =
     [js ''https://walrus-testnet-aggregator.nodes.guru'',
      js ''https://walrus-testnet-aggregator.stakely.io'',
      js ''https://aggregator.walrus-testnet.walrus.space'',
      js ''https://testnet-walrus-aggregator.staketab.org'']"

definition get_url :: "jsstring \<Rightarrow> jsstring \<Rightarrow> jsstring" where
  "get_url baseUrl blob_id = baseUrl @ js ''/v1/blobs/'' @ blob_id"

text \<open>
  Why the loop body gives up on an aggregator: a status that is not ok (the explicit
  \<^verbatim>\<open>continue\<close>), or one of the three things the \<^verbatim>\<open>catch\<close> around the body catches: a
  rejected request, the \<^verbatim>\<open>Private key not available\<close> error, the
  \<^verbatim>\<open>Decryption failed: ...\<close> error wrapping what the unsealer threw.
\<close>

datatype node_failure =
    NodeStatus nat
  | NodeRejected js_error
  | SealedNoKey
  | DecryptionFailed js_error

datatype fetch_error =
    PendingVersion nat
  | CouldNotFetchFromAnyNode

datatype viewer_event =
    Requested jsstring
  | DecryptCalled bytes

text \<open>The innermost \<^verbatim>\<open>try\<close>: the text of \<^verbatim>\<open>index.html\<close>, or the blob as text.\<close>

definition render :: "('pub, 'priv, 'aes) viewer_env \<Rightarrow> bytes \<Rightarrow> jsstring" where
  "render V blob =
     (case zip_index_html V blob of
        Inl e \<Rightarrow> blob_text V blob
      | Inr None \<Rightarrow> js ''Error: index.html missing''
      | Inr (Some html) \<Rightarrow> if html = [] then js ''Error: index.html missing'' else html)"

text \<open>The loop body for one aggregator, with what it requested and whether it decrypted.\<close>

definition try_aggregator ::
  "('pub, 'priv, 'aes) viewer_env \<Rightarrow> 'priv option \<Rightarrow> archive_object \<Rightarrow> bool \<Rightarrow> jsstring
   \<Rightarrow> (node_failure + jsstring) \<times> viewer_event list" where
  "try_aggregator V journalistPrivateKey version isSealed baseUrl =
     (let u = get_url baseUrl (walrusBlobId version)
      in case aggregators V u of
           GetRejected e \<Rightarrow> (Inl (NodeRejected e), [Requested u])
         | GetStatus s \<Rightarrow> (Inl (NodeStatus s), [Requested u])
         | GetOk blob \<Rightarrow>
             (if isSealed then
                (case journalistPrivateKey of
                   None \<Rightarrow> (Inl SealedNoKey, [Requested u])
                 | Some key \<Rightarrow>
                     (case decryptSealedBlob (web V) blob key of
                        Inl e \<Rightarrow> (Inl (DecryptionFailed e), [Requested u, DecryptCalled blob])
                      | Inr plain \<Rightarrow> (Inr (render V plain), [Requested u, DecryptCalled blob])))
              else (Inr (render V blob), [Requested u])))"

fun fetch_loop ::
  "('pub, 'priv, 'aes) viewer_env \<Rightarrow> 'priv option \<Rightarrow> archive_object \<Rightarrow> bool \<Rightarrow> jsstring list
   \<Rightarrow> (fetch_error + jsstring) \<times> viewer_event list" where
  "fetch_loop V key version isSealed [] = (Inl CouldNotFetchFromAnyNode, [])"
| "fetch_loop V key version isSealed (baseUrl # rest) =
     (case try_aggregator V key version isSealed baseUrl of
        (Inr html, evs) \<Rightarrow> (Inr html, evs)
      | (Inl failure, evs) \<Rightarrow>
          (case fetch_loop V key version isSealed rest of
             (r, evs') \<Rightarrow> (r, evs @ evs')))"

definition fetchHtml ::
  "('pub, 'priv, 'aes) viewer_env \<Rightarrow> 'priv option \<Rightarrow> archive_object
   \<Rightarrow> (fetch_error + jsstring) \<times> viewer_event list" where
  "fetchHtml V journalistPrivateKey version =
     (if walrusBlobId version = js ''unknown'' then (Inl (PendingVersion (realVersion version)), [])
      else fetch_loop V journalistPrivateKey version (js_includes (title version) lock) AGGREGATORS)"

subsection \<open>A reference platform\<close>

text \<open>
  A small platform on which every function above can be run. It is no cryptography: the
  cipher adds a pad derived from key and nonce, the tag carries the length and a
  checksum of the plaintext, and an RSA key is a word of four letters that the wrapped
  key is prefixed with. It does have the shape the code relies on: \<^verbatim>\<open>publicEncrypt\<close>
  reads the first armoured block of the key text and ignores what follows, as the PEM
  reader of OpenSSL does, a wrapped key has one fixed length, opening succeeds only
  under the matching private key and an intact tag, and \<^verbatim>\<open>btoa\<close> and \<^verbatim>\<open>atob\<close> accept
  code units below 256 only.
\<close>

definition ref_pad :: "bytes \<Rightarrow> bytes \<Rightarrow> 8 word" where
  "ref_pad key iv = sum_list key + sum_list iv"

definition ref_tag :: "bytes \<Rightarrow> bytes \<Rightarrow> bytes \<Rightarrow> bytes" where
  "ref_tag key iv plain =
     of_nat (length plain) # (sum_list plain + ref_pad key iv) # replicate 14 (ref_pad key iv)"

definition ref_gcm_cipher :: "bytes \<Rightarrow> bytes \<Rightarrow> bytes \<Rightarrow> bytes \<times> bytes" where
  "ref_gcm_cipher key iv plain = (map (\<lambda>b. b + ref_pad key iv) plain, ref_tag key iv plain)"

definition ref_gcm_open :: "bytes \<Rightarrow> bytes \<Rightarrow> bytes \<Rightarrow> js_error + bytes" where
  "ref_gcm_open key iv x =
     (if length x < 16 then Inl OperationError
      else (let plain = map (\<lambda>b. b - ref_pad key iv) (take (length x - 16) x)
            in if drop (length x - 16) x = ref_tag key iv plain then Inr plain
               else Inl OperationError))"

text \<open>Key texts are four code units out of the base64 alphabet.\<close>

definition base64_unit :: "16 word \<Rightarrow> bool" where
  "base64_unit c =
     ((65 \<le> c \<and> c \<le> 90) \<or> (97 \<le> c \<and> c \<le> 122) \<or> (48 \<le> c \<and> c \<le> 57)
      \<or> c = 43 \<or> c = 47 \<or> c = 61)"

definition ref_key_text :: "jsstring \<Rightarrow> bool" where
  "ref_key_text t = (length t = 4 \<and> list_all base64_unit t)"

definition ref_wrap :: "jsstring \<Rightarrow> bytes \<Rightarrow> entropy \<Rightarrow> js_error + bytes" where
  "ref_wrap pub msg rng =
     (if ref_key_text pub \<and> length msg = 32
      then Inr (charCodes pub @ [rng 0] @ map (\<lambda>b. b + rng 0) msg)
      else Inl OperationError)"

definition ref_unwrap :: "jsstring \<Rightarrow> bytes \<Rightarrow> js_error + bytes" where
  "ref_unwrap priv c =
     (if ref_key_text priv \<and> length c = 37 \<and> take 4 c = charCodes priv
      then Inr (map (\<lambda>b. b - c ! 4) (drop 5 c))
      else Inl OperationError)"

fun split_lines :: "jsstring \<Rightarrow> jsstring list" where
  "split_lines [] = [[]]"
| "split_lines (c # cs) =
     (if c = 10 then [] # split_lines cs
      else (case split_lines cs of [] \<Rightarrow> [[c]] | l # ls \<Rightarrow> (c # l) # ls))"

text \<open>
  The first armoured block: the lines after the first \<^verbatim>\<open>BEGIN\<close> line up to the next
  \<^verbatim>\<open>END\<close> line, joined; nothing if either line is missing.
\<close>

definition read_first_block :: "jsstring \<Rightarrow> jsstring option" where
  "read_first_block pem =
     (case dropWhile (\<lambda>l. l \<noteq> pem_begin) (split_lines pem) of
        [] \<Rightarrow> None
      | b # after \<Rightarrow>
          (case dropWhile (\<lambda>l. l \<noteq> pem_end) after of
             [] \<Rightarrow> None
           | e # rest \<Rightarrow> Some (concat (takeWhile (\<lambda>l. l \<noteq> pem_end) after))))"

definition ref_publicEncrypt :: "jsstring \<Rightarrow> bytes \<Rightarrow> entropy \<Rightarrow> js_error + bytes" where
  "ref_publicEncrypt pem msg rng =
     (case read_first_block pem of
        None \<Rightarrow> Inl (Thrown (js ''no start line''))
      | Some body \<Rightarrow>
          (if ref_key_text body then ref_wrap body msg rng
           else Inl (Thrown (js ''bad base64 decode''))))"

definition ref_node :: node_crypto where
  "ref_node =
     \<lparr>gcm_cipher = ref_gcm_cipher,
      publicEncrypt = ref_publicEncrypt,
      sha256_hex = fromCharCode\<rparr>"

definition latin1 :: "jsstring \<Rightarrow> bool" where
  "latin1 s = list_all (\<lambda>c. c < 256) s"

definition ref_base64 :: "jsstring \<Rightarrow> js_error + jsstring" where
  "ref_base64 s = (if latin1 s then Inr s else Inl InvalidCharacterError)"

definition ref_import_text :: "bytes \<Rightarrow> js_error + jsstring" where
  "ref_import_text der =
     (if ref_key_text (fromCharCode der) then Inr (fromCharCode der) else Inl DataError)"

definition ref_key_of :: "entropy \<Rightarrow> jsstring" where
  "ref_key_of rng = (if bit (rng 0) 0 then js ''WXYZ'' else js ''ABCD'')"

definition ref_web :: "(jsstring, jsstring, bytes) web_crypto" where
  "ref_web =
     \<lparr>generateKey_rsa = (\<lambda>rng. (ref_key_of rng, ref_key_of rng)),
      exportKey_spki = (\<lambda>k. Inr (charCodes k)),
      importKey_spki = ref_import_text,
      exportKey_pkcs8 = (\<lambda>k. Inr (charCodes k)),
      importKey_pkcs8 = ref_import_text,
      generateKey_aes = randomBytes 32,
      exportKey_raw = Inr,
      importKey_raw = (\<lambda>raw. if length raw = 16 \<or> length raw = 32 then Inr raw else Inl DataError),
      encrypt_rsa = ref_wrap,
      decrypt_rsa = ref_unwrap,
      encrypt_gcm = (\<lambda>k iv plain. case ref_gcm_cipher k iv plain of (ct, tag) \<Rightarrow> Inr (ct @ tag)),
      decrypt_gcm = ref_gcm_open,
      btoa = ref_base64,
      atob = ref_base64,
      little_endian = True\<rparr>"

subsection \<open>Reading a viewer trace\<close>

text \<open>The URLs requested and the blobs handed to the unsealer, each in order.\<close>

fun requested :: "viewer_event list \<Rightarrow> jsstring list" where
  "requested [] = []"
| "requested (Requested u # evs) = u # requested evs"
| "requested (DecryptCalled b # evs) = requested evs"

fun decryptions :: "viewer_event list \<Rightarrow> bytes list" where
  "decryptions [] = []"
| "decryptions (Requested u # evs) = decryptions evs"
| "decryptions (DecryptCalled b # evs) = b # decryptions evs"

subsection \<open>Fixtures\<close>

text \<open>
  Concrete surroundings for running the model: an archive record with a given title and
  blob id, a viewer on the reference platform whose zip reader takes a blob starting
  with the letters PK for an archive holding the rest as \<^verbatim>\<open>index.html\<close>, and networks
  that give every request the same answer.
\<close>

definition sample_version :: "jsstring \<Rightarrow> jsstring \<Rightarrow> archive_object" where
  "sample_version t b =
     \<lparr>archive_id = js ''0x1'', url = js ''https://example.org'', title = t, realVersion = 1,
      capturedAtMs = js ''0'', walrusBlobId = b, tuskyFileId = js ''direct-upload'',
      contentHash = js ''0x'', objectId = js ''0x1''\<rparr>"

definition sample_viewer :: "(jsstring \<Rightarrow> get_reply) \<Rightarrow> (jsstring, jsstring, bytes) viewer_env" where
  "sample_viewer net =
     \<lparr>web = ref_web, aggregators = net,
      zip_index_html = (\<lambda>blob. if take 2 blob = [80, 75] then Inr (Some (fromCharCode (drop 2 blob)))
                               else Inl (Thrown (js ''not a zip file''))),
      blob_text = fromCharCode\<rparr>"


definition aggregators_serve :: "bytes \<Rightarrow> jsstring \<Rightarrow> get_reply" where
  "aggregators_serve blob u = GetOk blob"



definition rng0 :: entropy where
  "rng0 i = of_nat i"

subsection \<open>What sealing asks of the platform\<close>

text \<open>
  \<open>valid_keypair N W pub priv\<close>: \<open>pub\<close> is the text of a public key as the server
  receives it and \<open>priv\<close> is the private key paired with it. Every 32-byte key wrapped
  under the armoured text is no longer than the length field can say, and the browser
  unwraps it under \<open>priv\<close>.
\<close>

definition valid_keypair ::
  "node_crypto \<Rightarrow> ('pub, 'priv, 'aes) web_crypto \<Rightarrow> jsstring \<Rightarrow> 'priv \<Rightarrow> bool" where
  "valid_keypair N W pub priv =
     (\<forall>msg rng. length msg = 32 \<longrightarrow>
        (\<exists>c. publicEncrypt N (formattedKey pub) msg rng = Inr c
            \<and> length c \<le> 65535
            \<and> decrypt_rsa W priv c = Inr msg))"

text \<open>
  \<open>gcm_interoperable N W\<close>: Node and the browser implement the same AES-256-GCM with a
  16-byte tag. What Node's cipher makes of a 32-byte key and a 16-byte nonce, the
  browser opens when given the ciphertext with the tag appended.
\<close>

definition gcm_interoperable :: "node_crypto \<Rightarrow> ('pub, 'priv, 'aes) web_crypto \<Rightarrow> bool" where
  "gcm_interoperable N W =
     (\<forall>key iv plain. length key = 32 \<longrightarrow> length iv = 16 \<longrightarrow>
        (case gcm_cipher N key iv plain of
           (ct, tag) \<Rightarrow>
             length tag = 16
           \<and> (\<exists>k. importKey_raw W key = Inr k \<and> decrypt_gcm W k iv (ct @ tag) = Inr plain)))"

subsection \<open>The fields of a blob, as the unsealer reads them\<close>

text \<open>
  The nonce and the wrapped key of a blob, cut out as \<^verbatim>\<open>decryptBlob\<close> cuts them; the
  wrapped key of a blob too short to hold a length is empty.
\<close>

definition iv_field :: "bytes \<Rightarrow> bytes" where
  "iv_field buffer = slice 0 16 buffer"

definition authTag_field :: "bytes \<Rightarrow> bytes" where
  "authTag_field buffer = slice 16 32 buffer"

definition wrappedKey_field :: "bytes \<Rightarrow> bytes" where
  "wrappedKey_field buffer =
     (case getUint16BE buffer 32 of
        Inl e \<Rightarrow> []
      | Inr keyLength \<Rightarrow> slice 34 (34 + keyLength) buffer)"

definition ciphertext_field :: "bytes \<Rightarrow> bytes" where
  "ciphertext_field buffer =
     (case getUint16BE buffer 32 of
        Inl e \<Rightarrow> []
      | Inr keyLength \<Rightarrow> drop (34 + keyLength) buffer)"

text \<open>The two draws of \<^verbatim>\<open>sealBuffer\<close>: the AES key first, the nonce second.\<close>

definition drawn_key :: "entropy \<Rightarrow> bytes" where
  "drawn_key rng = fst (randomBytes 32 rng)"

definition drawn_iv :: "entropy \<Rightarrow> bytes" where
  "drawn_iv rng = fst (randomBytes 16 (snd (randomBytes 32 rng)))"

text \<open>
  The same two fields of a blob in the layout that \<^verbatim>\<open>encryptData\<close> writes: twelve bytes
  of nonce, the length of the wrapped key in host byte order, the wrapped key.
\<close>

definition host_uint16 :: "bool \<Rightarrow> 8 word \<Rightarrow> 8 word \<Rightarrow> nat" where
  "host_uint16 le b0 b1 = (if le then unat b0 + 256 * unat b1 else 256 * unat b0 + unat b1)"

definition browser_iv_field :: "bytes \<Rightarrow> bytes" where
  "browser_iv_field blob = slice 0 12 blob"

definition browser_wrappedKey_field :: "bool \<Rightarrow> bytes \<Rightarrow> bytes" where
  "browser_wrappedKey_field le blob =
     slice 14 (14 + host_uint16 le (blob ! 12) (blob ! 13)) blob"

text \<open>
  \<open>browser_keypair W pub priv\<close>: whatever the browser wraps under \<open>pub\<close> is no longer than
  a 16-bit length can say and is unwrapped by \<open>priv\<close>.
\<close>

definition browser_keypair :: "('pub, 'priv, 'aes) web_crypto \<Rightarrow> 'pub \<Rightarrow> 'priv \<Rightarrow> bool" where
  "browser_keypair W pub priv =
     (\<forall>msg rng c. encrypt_rsa W pub msg rng = Inr c \<longrightarrow>
        length c \<le> 65535 \<and> decrypt_rsa W priv c = Inr msg)"

text \<open>The draws of \<^verbatim>\<open>encryptData\<close>: the AES key, exported raw, and the nonce after it.\<close>

definition browser_drawn_key :: "('pub, 'priv, 'aes) web_crypto \<Rightarrow> entropy \<Rightarrow> js_error + bytes" where
  "browser_drawn_key W rng = exportKey_raw W (fst (generateKey_aes W rng))"

definition browser_drawn_iv :: "('pub, 'priv, 'aes) web_crypto \<Rightarrow> entropy \<Rightarrow> bytes" where
  "browser_drawn_iv W rng = fst (randomBytes 12 (snd (generateKey_aes W rng)))"

text \<open>A second random source, different from \<open>rng0\<close> at every position.\<close>

definition rng1 :: entropy where
  "rng1 i = of_nat i + 1"

subsection \<open>Reading a server trace\<close>








text \<open>The entropy left for OAEP after the two draws of \<^verbatim>\<open>sealBuffer\<close>.\<close>

definition oaep_entropy :: "entropy \<Rightarrow> entropy" where
  "oaep_entropy rng = snd (randomBytes 16 (snd (randomBytes 32 rng)))"

text \<open>A blob sealed for the key \<open>ABCD\<close>: a zip, by the sample viewer's reading, of the text \<open>hi\<close>.\<close>

definition sealed_sample :: bytes where
  "sealed_sample =
     (case sealBuffer ref_node rng0 [80, 75, 104, 105] (js ''ABCD'') of
        Inl e \<Rightarrow> []
      | Inr blob \<Rightarrow> blob)"

subsection \<open>What moving keys asks of the platform\<close>

text \<open>
  \<open>base64_roundtrip W\<close>: \<^verbatim>\<open>btoa\<close> accepts every string of code units below 256 and
  \<^verbatim>\<open>atob\<close> gives the string back. \<open>spki_roundtrip W pub\<close>: the public key \<open>pub\<close> can be
  exported, and importing the exported bytes gives a key that encrypts as \<open>pub\<close> does.
  \<open>pkcs8_roundtrip W priv\<close>: the same for the private key and decryption.
\<close>

definition base64_roundtrip :: "('pub, 'priv, 'aes) web_crypto \<Rightarrow> bool" where
  "base64_roundtrip W = (\<forall>s. latin1 s \<longrightarrow> (\<exists>t. btoa W s = Inr t \<and> atob W t = Inr s))"

definition spki_roundtrip :: "('pub, 'priv, 'aes) web_crypto \<Rightarrow> 'pub \<Rightarrow> bool" where
  "spki_roundtrip W pub =
     (\<exists>der pub'. exportKey_spki W pub = Inr der \<and> importKey_spki W der = Inr pub'
        \<and> (\<forall>msg rng. encrypt_rsa W pub' msg rng = encrypt_rsa W pub msg rng))"

definition pkcs8_roundtrip :: "('pub, 'priv, 'aes) web_crypto \<Rightarrow> 'priv \<Rightarrow> bool" where
  "pkcs8_roundtrip W priv =
     (\<exists>der priv'. exportKey_pkcs8 W priv = Inr der \<and> importKey_pkcs8 W der = Inr priv'
        \<and> (\<forall>c. decrypt_rsa W priv' c = decrypt_rsa W priv c))"

subsection \<open>Damaged blobs\<close>





section \<open>Properties\<close>

subsection \<open>Ordered failover\<close>


lemma upload_loop_accept:
  "dropWhile (\<lambda>b. isl (put_attempt net buf b)) pool = b # rest \<Longrightarrow>
   fst (upload_loop net buf pool le) = Inr (projr (put_attempt net buf b))"
  by (induction pool arbitrary: le) (auto simp: split_beta split: sum.splits if_splits)












lemma AGGREGATORS_length: "length AGGREGATORS = 4"
  by (simp add: AGGREGATORS_def)















lemma js_blob_not_unknown: "js ''blob-1'' \<noteq> js ''unknown''"
  by (simp add: js_def)

lemma sample_walrusBlobId [simp]: "walrusBlobId (sample_version t b) = b"
  by (simp add: sample_version_def)

lemma sample_title [simp]: "title (sample_version t b) = t"
  by (simp add: sample_version_def)

lemma sample_aggregators [simp]: "aggregators (sample_viewer net) = net"
  by (simp add: sample_viewer_def)

lemma sample_web [simp]: "web (sample_viewer net) = ref_web"
  by (simp add: sample_viewer_def)





subsection \<open>The frame of a sealed blob\<close>

lemma unat_byte: "n < 256 \<Longrightarrow> unat (of_nat n :: 8 word) = n"
  by (simp add: unat_of_nat)

lemma be16_value:
  "n \<le> 65535 \<Longrightarrow> 256 * unat (of_nat (n div 256) :: 8 word) + unat (of_nat (n mod 256) :: 8 word) = n"
proof -
  assume "n \<le> 65535"
  then have "n div 256 < 256" by simp
  then show ?thesis by (simp add: unat_byte)
qed

lemma getUint16BE_frame:
  assumes "length iv = 16" "length tag = 16" "n \<le> 65535"
  shows "getUint16BE (iv @ tag @ [of_nat (n div 256), of_nat (n mod 256)] @ body) 32 = Inr n"
proof -
  let ?b = "iv @ tag @ [of_nat (n div 256), of_nat (n mod 256)] @ body"
  have "?b ! 32 = of_nat (n div 256)" "?b ! 33 = of_nat (n mod 256)"
    using assms by (simp_all add: nth_append)
  moreover have "\<not> length ?b < 34" using assms by simp
  ultimately show ?thesis
    using be16_value[OF assms(3)] by (simp add: getUint16BE_def)
qed

lemma decryptBlob_parse:
  assumes "length iv = 16" "length tag = 16" "n \<le> 65535"
  shows "decryptBlob W (iv @ tag @ [of_nat (n div 256), of_nat (n mod 256)] @ body) priv =
           (case decrypt_rsa W priv (take n body) of
              Inl e \<Rightarrow> Inl e
            | Inr raw \<Rightarrow>
                (case importKey_raw W raw of
                   Inl e \<Rightarrow> Inl e
                 | Inr k \<Rightarrow> decrypt_gcm W k iv (drop n body @ tag)))"
  using assms getUint16BE_frame[OF assms, of body]
  by (simp add: decryptBlob_def slice_def Let_def split: sum.splits)

lemma decryptBlob_frame:
  assumes "length iv = 16" "length tag = 16" "writeUInt16BE (length wrapped) = Inr kl"
  shows "decryptBlob W (iv @ tag @ kl @ wrapped @ ct) priv =
           (case decrypt_rsa W priv wrapped of
              Inl e \<Rightarrow> Inl e
            | Inr raw \<Rightarrow>
                (case importKey_raw W raw of
                   Inl e \<Rightarrow> Inl e
                 | Inr k \<Rightarrow> decrypt_gcm W k iv (ct @ tag)))"
proof -
  from assms(3) have n: "length wrapped \<le> 65535"
    and kl: "kl = [of_nat (length wrapped div 256), of_nat (length wrapped mod 256)]"
    by (auto simp: writeUInt16BE_def split: if_splits)
  show ?thesis
    using decryptBlob_parse[OF assms(1,2) n, of W "wrapped @ ct" priv]
    by (simp add: kl split: sum.splits)
qed

lemma decryptSealedBlob_eq: "decryptSealedBlob W blob priv = decryptBlob W blob priv"
  by (simp add: decryptSealedBlob_def decryptBlob_def)

lemma decryptBlob_short: "length blob < 34 \<Longrightarrow> decryptBlob W blob priv = Inl RangeError"
  by (simp add: decryptBlob_def getUint16BE_def)

lemma randomBytes_length: "length (fst (randomBytes n rng)) = n"
  by (simp add: randomBytes_def)

text \<open>What a successful seal is made of.\<close>

lemma sealBuffer_Inr:
  assumes "sealBuffer N rng buffer pub = Inr blob"
  shows "\<exists>wrapped kl.
           publicEncrypt N (formattedKey pub) (fst (randomBytes 32 rng))
               (snd (randomBytes 16 (snd (randomBytes 32 rng)))) = Inr wrapped
         \<and> writeUInt16BE (length wrapped) = Inr kl
         \<and> blob = fst (randomBytes 16 (snd (randomBytes 32 rng)))
                  @ snd (gcm_cipher N (fst (randomBytes 32 rng))
                           (fst (randomBytes 16 (snd (randomBytes 32 rng)))) buffer)
                  @ kl @ wrapped
                  @ fst (gcm_cipher N (fst (randomBytes 32 rng))
                           (fst (randomBytes 16 (snd (randomBytes 32 rng)))) buffer)"
  using assms
  by (auto simp: sealBuffer_def Let_def split_beta split: sum.splits)

lemma sealBuffer_ok:
  assumes "publicEncrypt N (formattedKey pub) (fst (randomBytes 32 rng))
               (snd (randomBytes 16 (snd (randomBytes 32 rng)))) = Inr wrapped"
    and "writeUInt16BE (length wrapped) = Inr kl"
  shows "sealBuffer N rng buffer pub =
           Inr (fst (randomBytes 16 (snd (randomBytes 32 rng)))
                @ snd (gcm_cipher N (fst (randomBytes 32 rng))
                         (fst (randomBytes 16 (snd (randomBytes 32 rng)))) buffer)
                @ kl @ wrapped
                @ fst (gcm_cipher N (fst (randomBytes 32 rng))
                         (fst (randomBytes 16 (snd (randomBytes 32 rng)))) buffer))"
  using assms by (simp add: sealBuffer_def Let_def split_beta)

text \<open>
  Claim C1. For every payload, of any length, every random source and every valid
  key pair, \<^verbatim>\<open>sealBuffer\<close> succeeds and both copies of the viewer's unsealer return
  exactly the payload from the blob it made.
\<close>

theorem seal_unseal_roundtrip:
  assumes kp: "valid_keypair N W pub priv" and gcm: "gcm_interoperable N W"
  shows "\<exists>blob. sealBuffer N rng payload pub = Inr blob
              \<and> decryptBlob W blob priv = Inr payload
              \<and> decryptSealedBlob W blob priv = Inr payload"
proof -
  let ?aesKey = "fst (randomBytes 32 rng)"
  let ?iv = "fst (randomBytes 16 (snd (randomBytes 32 rng)))"
  let ?rng2 = "snd (randomBytes 16 (snd (randomBytes 32 rng)))"
  let ?ct = "fst (gcm_cipher N ?aesKey ?iv payload)"
  let ?tag = "snd (gcm_cipher N ?aesKey ?iv payload)"
  have lk: "length ?aesKey = 32" and liv: "length ?iv = 16"
    by (simp_all add: randomBytes_length)
  from kp lk obtain wrapped where
    w: "publicEncrypt N (formattedKey pub) ?aesKey ?rng2 = Inr wrapped"
    and wl: "length wrapped \<le> 65535"
    and un: "decrypt_rsa W priv wrapped = Inr ?aesKey"
    unfolding valid_keypair_def by blast
  from gcm lk liv obtain k where
    ltag: "length ?tag = 16"
    and imp: "importKey_raw W ?aesKey = Inr k"
    and op: "decrypt_gcm W k ?iv (?ct @ ?tag) = Inr payload"
    unfolding gcm_interoperable_def by (fastforce simp: split_beta)
  obtain kl where kl: "writeUInt16BE (length wrapped) = Inr kl"
    using wl by (simp add: writeUInt16BE_def)
  have s: "sealBuffer N rng payload pub = Inr (?iv @ ?tag @ kl @ wrapped @ ?ct)"
    using sealBuffer_ok[OF w kl] .
  have d: "decryptBlob W (?iv @ ?tag @ kl @ wrapped @ ?ct) priv = Inr payload"
    using decryptBlob_frame[OF liv ltag kl, of W ?ct priv] un imp op by simp
  show ?thesis using s d by (simp add: decryptSealedBlob_eq)
qed


subsection \<open>The reference platform keeps the contracts\<close>

lemma split_lines_line: "10 \<notin> set l \<Longrightarrow> split_lines l = [l]"
  by (induction l) auto

lemma split_lines_append: "10 \<notin> set l \<Longrightarrow> split_lines (l @ 10 # rest) = l # split_lines rest"
  by (induction l) auto

lemma pem_begin_line: "10 \<notin> set pem_begin"
  by (simp add: pem_begin_def js_def)

lemma pem_end_line: "10 \<notin> set pem_end"
  by (simp add: pem_end_def js_def)

lemma pem_begin_length: "length pem_begin = 26"
  by (simp add: pem_begin_def js_def)

lemma pem_end_length: "length pem_end = 24"
  by (simp add: pem_end_def js_def)


lemma ref_key_text_line: "ref_key_text t \<Longrightarrow> 10 \<notin> set t"
  by (auto simp: ref_key_text_def list_all_iff base64_unit_def)

lemma ref_key_text_not_pem: "ref_key_text t \<Longrightarrow> t \<noteq> pem_end \<and> t \<noteq> pem_begin"
  using pem_begin_length pem_end_length by (auto simp: ref_key_text_def)

lemma read_first_block_formattedKey:
  assumes "ref_key_text t"
  shows "read_first_block (formattedKey t) = Some t"
  using ref_key_text_line[OF assms] ref_key_text_not_pem[OF assms]
  by (simp add: read_first_block_def formattedKey_def split_lines_append split_lines_line
      pem_begin_line pem_end_line)

lemma charCodes_length: "length (charCodes s) = length s"
  by (simp add: charCodes_def)

lemma ref_unwrap_wrap:
  assumes "ref_key_text t" "length msg = 32"
  shows "ref_unwrap t (charCodes t @ [r] @ map (\<lambda>b. b + r) msg) = Inr msg"
proof -
  have l: "length (charCodes t) = 4"
    using assms(1) by (simp add: ref_key_text_def charCodes_length)
  have "(charCodes t @ [r] @ map (\<lambda>b. b + r) msg) ! 4 = r"
    using l by (simp add: nth_append)
  moreover have "drop 5 (charCodes t @ [r] @ map (\<lambda>b. b + r) msg) = map (\<lambda>b. b + r) msg"
    using l by simp
  moreover have "map (\<lambda>b. b - r) (map (\<lambda>b. b + r) msg) = msg"
    by (simp add: o_def)
  ultimately show ?thesis
    using assms l by (simp add: ref_unwrap_def)
qed

lemma ref_publicEncrypt_formattedKey:
  assumes "ref_key_text t" "length msg = 32"
  shows "publicEncrypt ref_node (formattedKey t) msg rng
           = Inr (charCodes t @ [rng 0] @ map (\<lambda>b. b + rng 0) msg)"
  using assms
  by (simp add: ref_node_def ref_publicEncrypt_def read_first_block_formattedKey ref_wrap_def)

lemma ref_valid_keypair:
  assumes "ref_key_text t"
  shows "valid_keypair ref_node ref_web t t"
proof -
  have "length (charCodes t @ [r] @ map (\<lambda>b. b + r) msg) \<le> 65535" if "length msg = 32" for r msg
    using assms that by (simp add: ref_key_text_def charCodes_length)
  moreover have "decrypt_rsa ref_web t c = ref_unwrap t c" for c
    by (simp add: ref_web_def)
  ultimately show ?thesis
    unfolding valid_keypair_def
    using ref_publicEncrypt_formattedKey[OF assms] ref_unwrap_wrap[OF assms] by auto
qed

lemma ref_tag_length: "length (ref_tag key iv plain) = 16"
  by (simp add: ref_tag_def)

lemma ref_gcm_open_cipher:
  "ref_gcm_open key iv (map (\<lambda>b. b + ref_pad key iv) plain @ ref_tag key iv plain) = Inr plain"
  by (simp add: ref_gcm_open_def ref_tag_length o_def)

lemma ref_gcm_interoperable: "gcm_interoperable ref_node ref_web"
  unfolding gcm_interoperable_def
  by (simp add: ref_node_def ref_web_def ref_gcm_cipher_def ref_tag_length ref_gcm_open_cipher)

lemma key_ABCD: "ref_key_text (js ''ABCD'')"
  by (simp add: ref_key_text_def js_def base64_unit_def)

lemma key_ABCE: "ref_key_text (js ''ABCE'')"
  by (simp add: ref_key_text_def js_def base64_unit_def)

text \<open>The round trip on the reference platform, with a two-byte payload.\<close>

theorem seal_unseal_roundtrip_witness:
  "valid_keypair ref_node ref_web (js ''ABCD'') (js ''ABCD'')
   \<and> gcm_interoperable ref_node ref_web
   \<and> (\<exists>blob. sealBuffer ref_node rng0 [104, 105] (js ''ABCD'') = Inr blob
           \<and> decryptBlob ref_web blob (js ''ABCD'') = Inr [104, 105]
           \<and> decryptSealedBlob ref_web blob (js ''ABCD'') = Inr [104, 105])"
  using seal_unseal_roundtrip[OF ref_valid_keypair[OF key_ABCD] ref_gcm_interoperable,
      of rng0 "[104, 105]"]
    ref_valid_keypair[OF key_ABCD] ref_gcm_interoperable
  by simp

subsection \<open>The layout of a sealed blob\<close>

lemma frame_fields:
  assumes "length iv = 16" "length tag = 16" "writeUInt16BE (length wrapped) = Inr kl"
  shows "iv_field (iv @ tag @ kl @ wrapped @ ct) = iv
       \<and> authTag_field (iv @ tag @ kl @ wrapped @ ct) = tag
       \<and> wrappedKey_field (iv @ tag @ kl @ wrapped @ ct) = wrapped
       \<and> ciphertext_field (iv @ tag @ kl @ wrapped @ ct) = ct
       \<and> getUint16BE (iv @ tag @ kl @ wrapped @ ct) 32 = Inr (length wrapped)"
proof -
  from assms(3) have n: "length wrapped \<le> 65535"
    and kl: "kl = [of_nat (length wrapped div 256), of_nat (length wrapped mod 256)]"
    by (auto simp: writeUInt16BE_def split: if_splits)
  have g: "getUint16BE (iv @ tag @ kl @ wrapped @ ct) 32 = Inr (length wrapped)"
    using getUint16BE_frame[OF assms(1,2) n, of "wrapped @ ct"] by (simp add: kl)
  have "iv_field (iv @ tag @ kl @ wrapped @ ct) = iv"
    using assms by (simp add: iv_field_def slice_def)
  moreover have "authTag_field (iv @ tag @ kl @ wrapped @ ct) = tag"
    using assms by (simp add: authTag_field_def slice_def)
  moreover have "wrappedKey_field (iv @ tag @ kl @ wrapped @ ct) = wrapped"
    using assms g by (simp add: wrappedKey_field_def slice_def kl)
  moreover have "ciphertext_field (iv @ tag @ kl @ wrapped @ ct) = ct"
    using assms g by (simp add: ciphertext_field_def kl)
  ultimately show ?thesis using g by simp
qed


subsection \<open>The layout that \<^verbatim>\<open>encryptData\<close> writes\<close>

lemma encryptData_Inr:
  assumes "encryptData W rng plain pub = Inr blob"
  shows "\<exists>iv wrapped sealed.
           blob = iv @ uint16_host_bytes (little_endian W) (length wrapped) @ wrapped @ sealed
         \<and> iv = fst (randomBytes 12 (snd (generateKey_aes W rng)))
         \<and> length iv = 12
         \<and> encrypt_gcm W (fst (generateKey_aes W rng)) iv plain = Inr sealed
         \<and> (\<exists>raw. exportKey_raw W (fst (generateKey_aes W rng)) = Inr raw
                \<and> encrypt_rsa W pub raw (snd (randomBytes 12 (snd (generateKey_aes W rng))))
                    = Inr wrapped)
         \<and> length blob = 12 + 2 + length wrapped + length sealed"
  using assms
  by (auto simp: encryptData_def Let_def split_beta randomBytes_length uint16_host_bytes_def
      split: sum.splits)

lemma ref_unseal_small:
  assumes "length blob < 71"
  shows "isl (decryptBlob ref_web blob priv)"
proof (cases "length blob < 34")
  case True
  then show ?thesis by (simp add: decryptBlob_short)
next
  case False
  obtain n where n: "getUint16BE blob 32 = Inr n"
    using False by (auto simp: getUint16BE_def)
  have "length (slice 34 (34 + n) blob) \<noteq> 37"
    using assms by (simp add: slice_def)
  then have "decrypt_rsa ref_web priv (slice 34 (34 + n) blob) = Inl OperationError"
    by (simp add: ref_web_def ref_unwrap_def)
  with n show ?thesis by (simp add: decryptBlob_def Let_def)
qed

lemma ref_encryptData:
  assumes "ref_key_text t"
  shows "\<exists>blob. encryptData ref_web rng plain t = Inr blob
           \<and> length blob = 12 + 2 + 37 + (length plain + 16)
           \<and> slice 12 14 blob = [37, 0]"
  using assms
  by (simp add: encryptData_def Let_def split_beta ref_web_def ref_gcm_cipher_def ref_wrap_def
      randomBytes_length ref_tag_length uint16_host_bytes_def charCodes_length ref_key_text_def
      slice_def)

text \<open>
  Claim C2 says that both sealers emit nonce (16 bytes), tag (16 bytes), big-endian
  length (2 bytes), wrapped key and ciphertext, \<open>16 + 16 + 2\<close> bytes plus the last two
  fields in all. \<^verbatim>\<open>sealBuffer\<close> does (\<open>sealBuffer_layout\<close>); \<^verbatim>\<open>encryptData\<close> does not.
  Run on a two-byte payload with a 37-byte wrapped key it returns \<open>12 + 2 + 37 + (2 + 16)\<close>
  bytes, not \<open>16 + 16 + 2 + 37 + 2\<close>: the nonce has 12 bytes, the length follows it at
  offset 12 with the low byte first, and the tag comes last, appended to the
  ciphertext. \<^verbatim>\<open>decryptBlob\<close> of the same file rejects the blob.
\<close>

theorem encryptData_layout_differs:
  "\<exists>blob. encryptData ref_web rng0 [104, 105] (js ''ABCD'') = Inr blob
         \<and> length blob = 12 + 2 + 37 + (2 + 16)
         \<and> slice 12 14 blob = [37, 0]
         \<and> isl (decryptBlob ref_web blob (js ''ABCD''))"
proof -
  from ref_encryptData[OF key_ABCD, of rng0 "[104, 105]"] obtain blob where
    e: "encryptData ref_web rng0 [104, 105] (js ''ABCD'') = Inr blob"
    and l: "length blob = 12 + 2 + 37 + (2 + 16)" and k: "slice 12 14 blob = [37, 0]"
    by auto
  have "length blob < 71" using l by simp
  from ref_unseal_small[OF this] e l k show ?thesis by auto
qed


subsection \<open>Freshness\<close>

lemma sealBuffer_fresh:
  assumes kp: "valid_keypair N W pub priv" and gcm: "gcm_interoperable N W"
    and key: "drawn_key rngA \<noteq> drawn_key rngB" and iv: "drawn_iv rngA \<noteq> drawn_iv rngB"
  shows "\<exists>blobA blobB.
           sealBuffer N rngA payload pub = Inr blobA
         \<and> sealBuffer N rngB payload pub = Inr blobB
         \<and> blobA \<noteq> blobB
         \<and> iv_field blobA \<noteq> iv_field blobB
         \<and> wrappedKey_field blobA \<noteq> wrappedKey_field blobB"
proof -
  have one: "\<exists>blob wrapped. sealBuffer N rng payload pub = Inr blob
        \<and> iv_field blob = drawn_iv rng \<and> wrappedKey_field blob = wrapped
        \<and> decrypt_rsa W priv wrapped = Inr (drawn_key rng)" for rng
  proof -
    let ?rng2 = "snd (randomBytes 16 (snd (randomBytes 32 rng)))"
    let ?ct = "fst (gcm_cipher N (drawn_key rng) (drawn_iv rng) payload)"
    let ?tag = "snd (gcm_cipher N (drawn_key rng) (drawn_iv rng) payload)"
    have lk: "length (drawn_key rng) = 32" and liv: "length (drawn_iv rng) = 16"
      by (simp_all add: drawn_key_def drawn_iv_def randomBytes_length)
    from kp lk obtain wrapped where
      w: "publicEncrypt N (formattedKey pub) (drawn_key rng) ?rng2 = Inr wrapped"
      and wl: "length wrapped \<le> 65535"
      and un: "decrypt_rsa W priv wrapped = Inr (drawn_key rng)"
      unfolding valid_keypair_def by blast
    from gcm lk liv have ltag: "length ?tag = 16"
      unfolding gcm_interoperable_def by (fastforce simp: split_beta)
    obtain kl where kl: "writeUInt16BE (length wrapped) = Inr kl"
      using wl by (simp add: writeUInt16BE_def)
    have s: "sealBuffer N rng payload pub = Inr (drawn_iv rng @ ?tag @ kl @ wrapped @ ?ct)"
      using sealBuffer_ok[OF w[unfolded drawn_key_def] kl, of payload]
      by (simp add: drawn_key_def drawn_iv_def)
    from frame_fields[OF liv ltag kl, of ?ct] s un show ?thesis by auto
  qed
  from one[of rngA] obtain blobA wA where
    A: "sealBuffer N rngA payload pub = Inr blobA" "iv_field blobA = drawn_iv rngA"
       "wrappedKey_field blobA = wA" "decrypt_rsa W priv wA = Inr (drawn_key rngA)" by blast
  from one[of rngB] obtain blobB wB where
    B: "sealBuffer N rngB payload pub = Inr blobB" "iv_field blobB = drawn_iv rngB"
       "wrappedKey_field blobB = wB" "decrypt_rsa W priv wB = Inr (drawn_key rngB)" by blast
  have "wA \<noteq> wB" using A(4) B(4) key by auto
  moreover have "iv_field blobA \<noteq> iv_field blobB" using A(2) B(2) iv by simp
  moreover from this have "blobA \<noteq> blobB" by auto
  ultimately show ?thesis using A B by auto
qed

lemma host_uint16_bytes:
  assumes "n \<le> 65535"
  shows "uint16_host_bytes le n = [b0, b1] \<Longrightarrow> host_uint16 le b0 b1 = n"
proof -
  assume u: "uint16_host_bytes le n = [b0, b1]"
  from assms have d: "n div 256 < 256" and m: "n mod 65536 = n" by simp_all
  show ?thesis
    using u d m by (auto simp: uint16_host_bytes_def host_uint16_def Let_def unat_byte split: if_splits)
qed

lemma browser_fields:
  assumes "length iv = 12" "length wrapped \<le> 65535"
  shows "browser_iv_field (iv @ uint16_host_bytes le (length wrapped) @ wrapped @ sealed) = iv
       \<and> browser_wrappedKey_field le (iv @ uint16_host_bytes le (length wrapped) @ wrapped @ sealed)
           = wrapped"
proof -
  obtain b0 b1 where u: "uint16_host_bytes le (length wrapped) = [b0, b1]"
    by (cases le) (auto simp: uint16_host_bytes_def Let_def)
  have h: "host_uint16 le b0 b1 = length wrapped"
    using host_uint16_bytes[OF assms(2) u] .
  have "(iv @ [b0, b1] @ wrapped @ sealed) ! 12 = b0" "(iv @ [b0, b1] @ wrapped @ sealed) ! 13 = b1"
    using assms(1) by (simp_all add: nth_append)
  then show ?thesis
    using assms(1) h by (simp add: u browser_iv_field_def browser_wrappedKey_field_def slice_def)
qed

lemma encryptData_fresh:
  assumes A: "encryptData W rngA plain pub = Inr blobA"
    and B: "encryptData W rngB plain pub = Inr blobB"
    and kp: "browser_keypair W pub priv"
    and key: "browser_drawn_key W rngA \<noteq> browser_drawn_key W rngB"
    and iv: "browser_drawn_iv W rngA \<noteq> browser_drawn_iv W rngB"
  shows "blobA \<noteq> blobB
       \<and> browser_iv_field blobA \<noteq> browser_iv_field blobB
       \<and> browser_wrappedKey_field (little_endian W) blobA
           \<noteq> browser_wrappedKey_field (little_endian W) blobB"
proof -
  have one: "\<exists>wrapped raw. browser_iv_field blob = browser_drawn_iv W rng
        \<and> browser_wrappedKey_field (little_endian W) blob = wrapped
        \<and> browser_drawn_key W rng = Inr raw
        \<and> decrypt_rsa W priv wrapped = Inr raw"
    if e: "encryptData W rng plain pub = Inr blob" for rng blob
  proof -
    from encryptData_Inr[OF e] obtain iv wrapped sealed raw where
      b: "blob = iv @ uint16_host_bytes (little_endian W) (length wrapped) @ wrapped @ sealed"
      and i: "iv = fst (randomBytes 12 (snd (generateKey_aes W rng)))" "length iv = 12"
      and r: "exportKey_raw W (fst (generateKey_aes W rng)) = Inr raw"
      and w: "encrypt_rsa W pub raw (snd (randomBytes 12 (snd (generateKey_aes W rng)))) = Inr wrapped"
      by blast
    from kp w have wl: "length wrapped \<le> 65535" and un: "decrypt_rsa W priv wrapped = Inr raw"
      unfolding browser_keypair_def by blast+
    from browser_fields[OF i(2) wl, of "little_endian W" sealed] b i r un show ?thesis
      by (simp add: browser_drawn_iv_def browser_drawn_key_def)
  qed
  from one[OF A] obtain wA rawA where
    a: "browser_iv_field blobA = browser_drawn_iv W rngA"
       "browser_wrappedKey_field (little_endian W) blobA = wA"
       "browser_drawn_key W rngA = Inr rawA" "decrypt_rsa W priv wA = Inr rawA" by blast
  from one[OF B] obtain wB rawB where
    b: "browser_iv_field blobB = browser_drawn_iv W rngB"
       "browser_wrappedKey_field (little_endian W) blobB = wB"
       "browser_drawn_key W rngB = Inr rawB" "decrypt_rsa W priv wB = Inr rawB" by blast
  have "wA \<noteq> wB" using a(3,4) b(3,4) key by auto
  moreover have "browser_iv_field blobA \<noteq> browser_iv_field blobB" using a(1) b(1) iv by simp
  moreover from this have "blobA \<noteq> blobB" by auto
  ultimately show ?thesis using a b by auto
qed

text \<open>
  Claim C7. Two runs of a sealer on the same payload and the same public key, with
  different draws for the AES key and for the nonce, return different blobs whose nonce
  fields differ and whose wrapped-key fields differ. For \<^verbatim>\<open>sealBuffer\<close> the fields are
  those the unsealer reads; for \<^verbatim>\<open>encryptData\<close> they are those of its own layout. The
  wrapped keys differ because one private key unwraps each to the key drawn in its run.
\<close>

theorem seal_freshness:
  "(valid_keypair N W pub priv \<and> gcm_interoperable N W
      \<and> drawn_key rngA \<noteq> drawn_key rngB \<and> drawn_iv rngA \<noteq> drawn_iv rngB
    \<longrightarrow> (\<exists>blobA blobB.
           sealBuffer N rngA payload pub = Inr blobA
         \<and> sealBuffer N rngB payload pub = Inr blobB
         \<and> blobA \<noteq> blobB
         \<and> iv_field blobA \<noteq> iv_field blobB
         \<and> wrappedKey_field blobA \<noteq> wrappedKey_field blobB))
   \<and> (encryptData W rngA payload wpub = Inr blobA' \<and> encryptData W rngB payload wpub = Inr blobB'
      \<and> browser_keypair W wpub priv
      \<and> browser_drawn_key W rngA \<noteq> browser_drawn_key W rngB
      \<and> browser_drawn_iv W rngA \<noteq> browser_drawn_iv W rngB
    \<longrightarrow> blobA' \<noteq> blobB'
       \<and> browser_iv_field blobA' \<noteq> browser_iv_field blobB'
       \<and> browser_wrappedKey_field (little_endian W) blobA'
           \<noteq> browser_wrappedKey_field (little_endian W) blobB')"
  using sealBuffer_fresh[of N W pub priv rngA rngB payload]
    encryptData_fresh[of W rngA payload wpub blobA' rngB blobB' priv]
  by blast


lemma drawn_key_differs: "rngA 0 \<noteq> rngB 0 \<Longrightarrow> drawn_key rngA \<noteq> drawn_key rngB"
proof
  assume d: "rngA 0 \<noteq> rngB 0" and e: "drawn_key rngA = drawn_key rngB"
  have "drawn_key rng ! 0 = rng 0" for rng
    by (simp add: drawn_key_def randomBytes_def)
  with e d show False by metis
qed

lemma drawn_iv_differs: "rngA 32 \<noteq> rngB 32 \<Longrightarrow> drawn_iv rngA \<noteq> drawn_iv rngB"
proof
  assume d: "rngA 32 \<noteq> rngB 32" and e: "drawn_iv rngA = drawn_iv rngB"
  have "drawn_iv rng ! 0 = rng 32" for rng
    by (simp add: drawn_iv_def randomBytes_def)
  with e d show False by metis
qed

lemma ref_browser_keypair: "browser_keypair ref_web t t"
proof -
  have "length c \<le> 65535 \<and> ref_unwrap t c = Inr msg" if "ref_wrap t msg rng = Inr c" for msg rng c
  proof -
    from that have k: "ref_key_text t" and m: "length msg = 32"
      and c: "c = charCodes t @ [rng 0] @ map (\<lambda>b. b + rng 0) msg"
      by (auto simp: ref_wrap_def split: if_splits)
    from k m have "length c \<le> 65535"
      by (simp add: c charCodes_length ref_key_text_def)
    with ref_unwrap_wrap[OF k m, of "rng 0"] c show ?thesis by simp
  qed
  then show ?thesis by (simp add: browser_keypair_def ref_web_def)
qed

lemma ref_browser_drawn_key_differs:
  "rngA 0 \<noteq> rngB 0 \<Longrightarrow> browser_drawn_key ref_web rngA \<noteq> browser_drawn_key ref_web rngB"
  using drawn_key_differs[of rngA rngB]
  by (simp add: browser_drawn_key_def ref_web_def drawn_key_def)

lemma ref_browser_drawn_iv_differs:
  "rngA 32 \<noteq> rngB 32 \<Longrightarrow> browser_drawn_iv ref_web rngA \<noteq> browser_drawn_iv ref_web rngB"
proof
  assume d: "rngA 32 \<noteq> rngB 32" and e: "browser_drawn_iv ref_web rngA = browser_drawn_iv ref_web rngB"
  have "browser_drawn_iv ref_web rng ! 0 = rng 32" for rng
    by (simp add: browser_drawn_iv_def ref_web_def randomBytes_def)
  with e d show False by metis
qed

lemma rng0_rng1_differ: "rng0 0 \<noteq> rng1 0" "rng0 32 \<noteq> rng1 32"
  by (simp_all add: rng0_def rng1_def)

text \<open>Freshness on the reference platform, for the random sources \<open>rng0\<close> and \<open>rng1\<close>.\<close>

theorem seal_freshness_witness:
  "valid_keypair ref_node ref_web (js ''ABCD'') (js ''ABCD'')
   \<and> gcm_interoperable ref_node ref_web
   \<and> drawn_key rng0 \<noteq> drawn_key rng1 \<and> drawn_iv rng0 \<noteq> drawn_iv rng1
   \<and> (\<exists>blobA blobB.
         sealBuffer ref_node rng0 [104, 105] (js ''ABCD'') = Inr blobA
       \<and> sealBuffer ref_node rng1 [104, 105] (js ''ABCD'') = Inr blobB
       \<and> blobA \<noteq> blobB
       \<and> iv_field blobA \<noteq> iv_field blobB
       \<and> wrappedKey_field blobA \<noteq> wrappedKey_field blobB)
   \<and> (\<exists>blobA blobB.
         encryptData ref_web rng0 [104, 105] (js ''ABCD'') = Inr blobA
       \<and> encryptData ref_web rng1 [104, 105] (js ''ABCD'') = Inr blobB
       \<and> blobA \<noteq> blobB
       \<and> browser_iv_field blobA \<noteq> browser_iv_field blobB
       \<and> browser_wrappedKey_field True blobA \<noteq> browser_wrappedKey_field True blobB)"
proof -
  note kp = ref_valid_keypair[OF key_ABCD]
  note dk = drawn_key_differs[of rng0 rng1, OF rng0_rng1_differ(1)]
  note di = drawn_iv_differs[of rng0 rng1, OF rng0_rng1_differ(2)]
  from ref_encryptData[OF key_ABCD, of rng0 "[104, 105]"] obtain bA where
    A: "encryptData ref_web rng0 [104, 105] (js ''ABCD'') = Inr bA" by blast
  from ref_encryptData[OF key_ABCD, of rng1 "[104, 105]"] obtain bB where
    B: "encryptData ref_web rng1 [104, 105] (js ''ABCD'') = Inr bB" by blast
  have le: "little_endian ref_web = True" by (simp add: ref_web_def)
  from seal_freshness[of ref_node ref_web "js ''ABCD''" "js ''ABCD''" rng0 rng1 "[104, 105]"
      "js ''ABCD''" bA bB]
    kp ref_gcm_interoperable dk di A B ref_browser_keypair[of "js ''ABCD''"]
    ref_browser_drawn_key_differs[of rng0 rng1, OF rng0_rng1_differ(1)]
    ref_browser_drawn_iv_differs[of rng0 rng1, OF rng0_rng1_differ(2)] le
  show ?thesis by simp
qed

subsection \<open>The archive route\<close>














lemma ref_sealBuffer:
  assumes "ref_key_text t"
  shows "\<exists>blob. sealBuffer ref_node rng buf t = Inr blob"
proof -
  have l: "length (fst (randomBytes 32 rng)) = 32" by (simp add: randomBytes_length)
  let ?w = "charCodes t @ [oaep_entropy rng 0] @ map (\<lambda>b. b + oaep_entropy rng 0) (fst (randomBytes 32 rng))"
  have w: "publicEncrypt ref_node (formattedKey t) (fst (randomBytes 32 rng))
             (snd (randomBytes 16 (snd (randomBytes 32 rng)))) = Inr ?w"
    using ref_publicEncrypt_formattedKey[OF assms l] by (simp add: oaep_entropy_def)
  have "length ?w \<le> 65535"
    using assms l by (simp add: charCodes_length ref_key_text_def)
  then obtain kl where "writeUInt16BE (length ?w) = Inr kl"
    by (simp add: writeUInt16BE_def)
  from sealBuffer_ok[OF w this] show ?thesis by blast
qed








subsection \<open>Key texts with delimiter lines\<close>











subsection \<open>The padlock in the title\<close>

lemma js_includes_prefix: "js_includes (t @ s) t"
proof -
  have "t @ s = [] @ t @ s" by simp
  then have "sublist t (t @ s)" unfolding sublist_def by blast
  then show ?thesis by (simp add: js_includes_def)
qed








lemma sample_try_first:
  "decryptions (snd (try_aggregator (sample_viewer (aggregators_serve blob)) (Some k)
       (sample_version (lock @ t) bid) True b)) = [blob]"
  by (simp add: try_aggregator_def Let_def aggregators_serve_def split: sum.splits)



subsection \<open>A failed decryption in the viewer\<close>

lemma try_aggregator_decrypt_failed:
  assumes "aggregators V (get_url b (walrusBlobId v)) = GetOk blob"
    and "decryptSealedBlob (web V) blob k = Inl e"
  shows "try_aggregator V (Some k) v True b
           = (Inl (DecryptionFailed e), [Requested (get_url b (walrusBlobId v)), DecryptCalled blob])"
  using assms by (simp add: try_aggregator_def Let_def)

lemma fetch_loop_decrypt_failed:
  assumes "\<And>u. aggregators V u = GetOk blob"
    and "decryptSealedBlob (web V) blob k = Inl e"
  shows "fst (fetch_loop V (Some k) v True pool) = Inl CouldNotFetchFromAnyNode
       \<and> decryptions (snd (fetch_loop V (Some k) v True pool)) = replicate (length pool) blob
       \<and> requested (snd (fetch_loop V (Some k) v True pool))
           = map (\<lambda>b. get_url b (walrusBlobId v)) pool"
  by (induction pool)
     (simp_all add: try_aggregator_decrypt_failed[OF assms(1) assms(2)] split_beta)

lemma ref_sealed_sample:
  "sealBuffer ref_node rng0 [80, 75, 104, 105] (js ''ABCD'') = Inr sealed_sample"
  using ref_sealBuffer[OF key_ABCD, of rng0 "[80, 75, 104, 105]"]
  by (auto simp: sealed_sample_def)

lemma ref_wrong_key:
  assumes "sealBuffer ref_node rng buf a = Inr blob" "ref_key_text a" "charCodes a \<noteq> charCodes b"
  shows "decryptBlob ref_web blob b = Inl OperationError"
proof -
  let ?key = "fst (randomBytes 32 rng)"
  let ?w = "charCodes a @ [oaep_entropy rng 0] @ map (\<lambda>x. x + oaep_entropy rng 0) ?key"
  have l: "length ?key = 32" by (simp add: randomBytes_length)
  from sealBuffer_Inr[OF assms(1)] obtain wrapped kl where
    w: "publicEncrypt ref_node (formattedKey a) ?key
          (snd (randomBytes 16 (snd (randomBytes 32 rng)))) = Inr wrapped"
    and kl: "writeUInt16BE (length wrapped) = Inr kl"
    and b: "blob = fst (randomBytes 16 (snd (randomBytes 32 rng)))
                  @ snd (gcm_cipher ref_node ?key
                           (fst (randomBytes 16 (snd (randomBytes 32 rng)))) buf)
                  @ kl @ wrapped
                  @ fst (gcm_cipher ref_node ?key
                           (fst (randomBytes 16 (snd (randomBytes 32 rng)))) buf)"
    by blast
  from w ref_publicEncrypt_formattedKey[OF assms(2) l] have wr: "wrapped = ?w"
    by (simp add: oaep_entropy_def)
  have "length (charCodes a) = 4" using assms(2) by (simp add: ref_key_text_def charCodes_length)
  then have "take 4 wrapped = charCodes a" by (simp add: wr)
  then have "decrypt_rsa ref_web b wrapped = Inl OperationError"
    using assms(3) by (auto simp: ref_web_def ref_unwrap_def)
  moreover have "length (fst (randomBytes 16 (snd (randomBytes 32 rng)))) = 16"
    by (simp add: randomBytes_length)
  moreover have "length (snd (gcm_cipher ref_node ?key
                           (fst (randomBytes 16 (snd (randomBytes 32 rng)))) buf)) = 16"
    by (simp add: ref_node_def ref_gcm_cipher_def ref_tag_length)
  ultimately show ?thesis
    unfolding b using decryptBlob_frame[OF _ _ kl, of _ _ ref_web _ b] by simp
qed

lemma ABCD_not_ABCE: "charCodes (js ''ABCD'') \<noteq> charCodes (js ''ABCE'')"
  by (simp add: charCodes_def js_def)

text \<open>
  Claim C5 says that a failed decryption ends the request and reaches the caller. In
  \<^verbatim>\<open>fetchHtml\<close> the \<^verbatim>\<open>Decryption failed\<close> error is thrown inside the \<^verbatim>\<open>try\<close> block of
  the aggregator loop, whose \<^verbatim>\<open>catch\<close> moves on to the next aggregator. Here every
  aggregator serves a blob sealed for the key \<open>ABCD\<close> and the viewer holds the key
  \<open>ABCE\<close>: the unsealer rejects the blob, it is called four times, once per aggregator,
  and the caller gets \<^verbatim>\<open>Could not fetch content from any node.\<close>
\<close>

theorem decryption_failure_retried:
  "decryptSealedBlob ref_web sealed_sample (js ''ABCE'') = Inl OperationError
   \<and> fst (fetchHtml (sample_viewer (aggregators_serve sealed_sample)) (Some (js ''ABCE''))
            (sample_version (lock @ js '' page'') (js ''blob-1''))) = Inl CouldNotFetchFromAnyNode
   \<and> decryptions (snd (fetchHtml (sample_viewer (aggregators_serve sealed_sample))
            (Some (js ''ABCE'')) (sample_version (lock @ js '' page'') (js ''blob-1''))))
       = [sealed_sample, sealed_sample, sealed_sample, sealed_sample]
   \<and> length (requested (snd (fetchHtml (sample_viewer (aggregators_serve sealed_sample))
            (Some (js ''ABCE'')) (sample_version (lock @ js '' page'') (js ''blob-1''))))) = 4"
proof -
  have d: "decryptSealedBlob ref_web sealed_sample (js ''ABCE'') = Inl OperationError"
    using ref_wrong_key[OF ref_sealed_sample key_ABCD ABCD_not_ABCE]
    by (simp add: decryptSealedBlob_eq)
  have g: "aggregators (sample_viewer (aggregators_serve sealed_sample)) u = GetOk sealed_sample" for u
    by (simp add: aggregators_serve_def)
  have w: "decryptSealedBlob (web (sample_viewer (aggregators_serve sealed_sample))) sealed_sample
             (js ''ABCE'') = Inl OperationError"
    using d by simp
  from fetch_loop_decrypt_failed[OF g w, of "sample_version (lock @ js '' page'') (js ''blob-1'')"
      AGGREGATORS] d
  show ?thesis
    by (simp add: fetchHtml_def js_blob_not_unknown js_includes_prefix AGGREGATORS_length
        numeral_eq_Suc)
qed

subsection \<open>Keys through base64\<close>

lemma byte_unit_byte: "ucast (ucast (b :: 8 word) :: 16 word) = b"
  by (rule ucast_up_ucast_id) (simp add: is_up)

lemma charCodes_fromCharCode: "charCodes (fromCharCode bs) = bs"
  by (simp add: charCodes_def fromCharCode_def byte_unit_byte o_def)

lemma unit_of_byte_small: "(ucast (b :: 8 word) :: 16 word) < 256"
proof -
  have "uint (ucast b :: 16 word) = uint b"
    by (rule uint_up_ucast) (simp add: is_up)
  moreover have "uint b < 256" using uint_lt2p[of b] by simp
  ultimately show ?thesis by (simp add: word_less_alt)
qed

lemma latin1_fromCharCode: "latin1 (fromCharCode bs)"
  by (simp add: latin1_def fromCharCode_def list_all_iff unit_of_byte_small)

lemma export_import_public:
  assumes b: "base64_roundtrip W" and k: "spki_roundtrip W pub"
  shows "\<exists>s pub'. exportKey W pub = Inr s \<and> importPublicKey W s = Inr pub'
           \<and> (\<forall>msg rng. encrypt_rsa W pub' msg rng = encrypt_rsa W pub msg rng)"
proof -
  from k obtain der pub' where
    e: "exportKey_spki W pub = Inr der" and i: "importKey_spki W der = Inr pub'"
    and same: "\<forall>msg rng. encrypt_rsa W pub' msg rng = encrypt_rsa W pub msg rng"
    unfolding spki_roundtrip_def by blast
  from b latin1_fromCharCode[of der] obtain t where
    t: "btoa W (fromCharCode der) = Inr t" "atob W t = Inr (fromCharCode der)"
    unfolding base64_roundtrip_def by blast
  have "exportKey W pub = Inr t" using e t(1) by (simp add: exportKey_def)
  moreover have "importPublicKey W t = Inr pub'"
    using t(2) i by (simp add: importPublicKey_def charCodes_fromCharCode)
  ultimately show ?thesis using same by blast
qed

lemma export_import_private:
  assumes b: "base64_roundtrip W" and k: "pkcs8_roundtrip W priv"
  shows "\<exists>s priv'. exportPrivateKey W priv = Inr s \<and> importPrivateKey W s = Inr priv'
           \<and> (\<forall>c. decrypt_rsa W priv' c = decrypt_rsa W priv c)"
proof -
  from k obtain der priv' where
    e: "exportKey_pkcs8 W priv = Inr der" and i: "importKey_pkcs8 W der = Inr priv'"
    and same: "\<forall>c. decrypt_rsa W priv' c = decrypt_rsa W priv c"
    unfolding pkcs8_roundtrip_def by blast
  from b latin1_fromCharCode[of der] obtain t where
    t: "btoa W (fromCharCode der) = Inr t" "atob W t = Inr (fromCharCode der)"
    unfolding base64_roundtrip_def by blast
  have "exportPrivateKey W priv = Inr t" using e t(1) by (simp add: exportPrivateKey_def)
  moreover have "importPrivateKey W t = Inr priv'"
    using t(2) i by (simp add: importPrivateKey_def charCodes_fromCharCode)
  ultimately show ?thesis using same by blast
qed

text \<open>
  Claim C8. On a platform whose base64 round-trips, for every public key and private
  key that the platform can export and re-import: exporting the public key with
  \<^verbatim>\<open>exportKey\<close> and importing the text with \<^verbatim>\<open>importPublicKey\<close> gives a key that encrypts
  every message, under every randomness, exactly as the original does; exporting the
  private key and importing the text gives a key that decrypts every ciphertext exactly
  as the original does.
\<close>

theorem key_export_import_roundtrip:
  assumes "base64_roundtrip W" and "spki_roundtrip W pub" and "pkcs8_roundtrip W priv"
  shows "(\<exists>s pub'. exportKey W pub = Inr s
              \<and> importPublicKey W s = Inr pub'
              \<and> (\<forall>msg r. encrypt_rsa W pub' msg r = encrypt_rsa W pub msg r))
       \<and> (\<exists>s priv'. exportPrivateKey W priv = Inr s
              \<and> importPrivateKey W s = Inr priv'
              \<and> (\<forall>c. decrypt_rsa W priv' c = decrypt_rsa W priv c))"
  using export_import_public[OF assms(1,2)] export_import_private[OF assms(1,3)] by blast

lemma unit_byte_unit: "c < 256 \<Longrightarrow> ucast (ucast (c :: 16 word) :: 8 word) = c"
proof -
  assume "c < 256"
  then have "c < 2 ^ 8" by simp
  then have "c AND mask 8 = c" by (rule less_mask_eq)
  moreover have "ucast (ucast c :: 8 word) = c AND mask 8"
    by (rule bit_word_eqI) (auto simp: bit_simps)
  ultimately show ?thesis by simp
qed

lemma base64_unit_small: "base64_unit c \<Longrightarrow> c < 256"
  by (auto simp: base64_unit_def word_le_nat_alt word_less_nat_alt)

lemma fromCharCode_charCodes: "ref_key_text t \<Longrightarrow> fromCharCode (charCodes t) = t"
  by (auto simp: ref_key_text_def list_all_iff fromCharCode_def charCodes_def o_def
      unit_byte_unit base64_unit_small intro!: map_idI)

lemma ref_base64_roundtrip: "base64_roundtrip ref_web"
  by (simp add: base64_roundtrip_def ref_web_def ref_base64_def)

lemma ref_spki_roundtrip: "ref_key_text t \<Longrightarrow> spki_roundtrip ref_web t"
  by (simp add: spki_roundtrip_def ref_web_def ref_import_text_def fromCharCode_charCodes)

lemma ref_pkcs8_roundtrip: "ref_key_text t \<Longrightarrow> pkcs8_roundtrip ref_web t"
  by (simp add: pkcs8_roundtrip_def ref_web_def ref_import_text_def fromCharCode_charCodes)

lemma key_WXYZ: "ref_key_text (js ''WXYZ'')"
  by (simp add: ref_key_text_def js_def base64_unit_def)

lemma ref_generated: "generateKeyPair ref_web rng0 = (js ''ABCD'', js ''ABCD'')"
  by (simp add: generateKeyPair_def ref_web_def ref_key_of_def rng0_def)

text \<open>The round trip of the pair generated on the reference platform from \<open>rng0\<close>.\<close>

theorem key_export_import_roundtrip_witness:
  "base64_roundtrip ref_web
   \<and> spki_roundtrip ref_web (fst (generateKeyPair ref_web rng0))
   \<and> pkcs8_roundtrip ref_web (snd (generateKeyPair ref_web rng0))
   \<and> (\<exists>s pub'. exportKey ref_web (fst (generateKeyPair ref_web rng0)) = Inr s
          \<and> importPublicKey ref_web s = Inr pub'
          \<and> encrypt_rsa ref_web pub' (drawn_key rng1) rng0
              = encrypt_rsa ref_web (fst (generateKeyPair ref_web rng0)) (drawn_key rng1) rng0)
   \<and> (\<exists>s priv'. exportPrivateKey ref_web (snd (generateKeyPair ref_web rng0)) = Inr s
          \<and> importPrivateKey ref_web s = Inr priv'
          \<and> decrypt_rsa ref_web priv' sealed_sample
              = decrypt_rsa ref_web (snd (generateKeyPair ref_web rng0)) sealed_sample)"
proof -
  have s: "spki_roundtrip ref_web (fst (generateKeyPair ref_web rng0))"
    and p: "pkcs8_roundtrip ref_web (snd (generateKeyPair ref_web rng0))"
    by (simp_all add: ref_generated ref_spki_roundtrip ref_pkcs8_roundtrip key_ABCD)
  from key_export_import_roundtrip[OF ref_base64_roundtrip s p] ref_base64_roundtrip s p
  show ?thesis by blast
qed

subsection \<open>Unsealing a damaged blob\<close>























subsection \<open>Damaged blobs on the reference platform\<close>









end
